theory Spec2Isabelle
  imports Complex_Main "HOL-Library.Multiset"
begin

section \<open>Python values shared by the two tools\<close>

text \<open>
  Both programs are Python scripts. An exception that nobody catches ends the process
  with a traceback and exit status 1; \<^verbatim>\<open>sys.exit(n)\<close> ends it with status \<open>n\<close>.
  Every raise of the source is a value \<open>Inl e\<close> of the model.
\<close>

datatype py_type = T_str | T_int | T_list

text \<open>The messages handed to \<^verbatim>\<open>_error\<close> in \<^verbatim>\<open>set_onnx_metadata.py\<close>, one constructor each.\<close>

datatype exit_msg =
    Missing_configuration_keys "string set"
  | Invalid_empty_value string
  | Metadata_should_be string py_type
  | Value_matches_template string
  | Number_of_class_names nat
  | Non_commercial_license string
  | Model_uri_missing
  | Invalid_model_file string
  | Invalid_model_extension
  | Metadata_missing
  | Metadata_not_flat_dictionary
  | Failed_to_write_metadata string

datatype py_error =
    KeyError string
  | TypeError
  | AttributeError
  | UnboundLocalError string
  | External string
  | SystemExit exit_msg

section \<open>onnx-model-validator.py: the interface diff\<close>

subsection \<open>Layer descriptors\<close>

text \<open>
  A dimension of an ONNX Runtime shape is an integer, a symbolic name or \<^verbatim>\<open>None\<close>.
  Python's \<^verbatim>\<open>==\<close> on such values is structural, as HOL's equality on \<open>dim\<close> is.
\<close>

datatype dim = Fixed int | Symbolic string | Unknown

text \<open>What \<^verbatim>\<open>parse_layers\<close> reads of a layer object: \<^verbatim>\<open>layer.name\<close> and \<^verbatim>\<open>layer.shape\<close>.\<close>

record node_arg =
  name :: string
  shape :: "dim list"

text \<open>The dictionary \<^verbatim>\<open>{'id': idx, 'name': layer.name, 'shape': layer.shape}\<close>.\<close>

record descriptor =
  id_d :: nat
  name_d :: string
  shape_d :: "dim list"

type_synonym container = "string \<rightharpoonup> descriptor list"

text \<open>
  \<^verbatim>\<open>parse_layers\<close>: the loop over \<^verbatim>\<open>layers\<close> with its counter \<^verbatim>\<open>idx\<close>;
  \<^verbatim>\<open>container[group]\<close> raises \<^verbatim>\<open>KeyError\<close> when the group is missing.
\<close>

fun parse_layers_loop :: "container \<Rightarrow> node_arg list \<Rightarrow> string \<Rightarrow> nat \<Rightarrow> py_error + container" where
  "parse_layers_loop container [] grp idx = Inr container"
| "parse_layers_loop container (layer # layers) grp idx =
     (case container grp of
        None \<Rightarrow> Inl (KeyError grp)
      | Some xs \<Rightarrow>
          parse_layers_loop
            (container(grp \<mapsto> xs @ [\<lparr>id_d = idx, name_d = name layer, shape_d = shape layer\<rparr>]))
            layers grp (idx + 1))"

definition parse_layers :: "container \<Rightarrow> node_arg list \<Rightarrow> string \<Rightarrow> py_error + container" where
  "parse_layers container layers grp = parse_layers_loop container layers grp 0"

text \<open>
  \<^verbatim>\<open>get_in_out_layers\<close>. The inference session is the external collaborator: the model
  takes what \<^verbatim>\<open>model.get_inputs()\<close> and \<^verbatim>\<open>model.get_outputs()\<close> return.
\<close>

definition get_in_out_layers :: "node_arg list \<Rightarrow> node_arg list \<Rightarrow> py_error + container" where
  "get_in_out_layers input_layers output_layers =
     (let layer_data = [''inputs'' \<mapsto> [], ''outputs'' \<mapsto> []] in
      case parse_layers layer_data input_layers ''inputs'' of
        Inl e \<Rightarrow> Inl e
      | Inr layer_data1 \<Rightarrow> parse_layers layer_data1 output_layers ''outputs'')"

subsection \<open>The report\<close>

text \<open>The global \<^verbatim>\<open>REPORT\<close>, an ordered dictionary, with the keys the program writes
  (the lists under \<^verbatim>\<open>'a_layers'\<close> and \<^verbatim>\<open>'b_layers'\<close> are the fields \<open>a_layers_e\<close> and \<open>b_layers_e\<close>).\<close>

record models_entry =
  model_a :: "string option"
  model_b :: "string option"
  compatability :: "(string \<rightharpoonup> bool) option"

record group_entry =
  a_vs_b :: string
  a_layers_e :: "descriptor list"
  b_vs_a :: string
  b_layers_e :: "descriptor list"
  symantic_difference :: "descriptor list"

record report =
  models :: "models_entry option"
  groups :: "string \<rightharpoonup> group_entry"
  exit_status :: "nat option"

definition empty_report :: report where
  "empty_report = \<lparr>models = None, groups = Map.empty, exit_status = None\<rparr>"

definition EXIT_STATUS_SUCCESS :: nat where
  "EXIT_STATUS_SUCCESS = 0"

definition EXIT_STATUS_ERROR :: nat where
  "EXIT_STATUS_ERROR = 1"

subsection \<open>diff_models\<close>

text \<open>The two comprehensions and their chained concatenation.\<close>

definition a_minus_b :: "descriptor list \<Rightarrow> descriptor list \<Rightarrow> descriptor list" where
  "a_minus_b a b = [item \<leftarrow> a. item \<notin> set b]"

definition b_minus_a :: "descriptor list \<Rightarrow> descriptor list \<Rightarrow> descriptor list" where
  "b_minus_a a b = [item \<leftarrow> b. item \<notin> set a]"

definition sym_diff :: "descriptor list \<Rightarrow> descriptor list \<Rightarrow> descriptor list" where
  "sym_diff a b = a_minus_b a b @ b_minus_a a b"

text \<open>\<^verbatim>\<open>for d in ds: target.append(d)\<close>, starting from the list \<open>target\<close>.\<close>

fun append_all :: "descriptor list \<Rightarrow> descriptor list \<Rightarrow> descriptor list" where
  "append_all target [] = target"
| "append_all target (d # ds) = append_all (target @ [d]) ds"

text \<open>
  \<^verbatim>\<open>REPORT['models']['compatability'][group] = flag\<close>: both lookups raise
  \<^verbatim>\<open>KeyError\<close> on a report that \<^verbatim>\<open>main\<close> has not initialised.
\<close>

definition set_compatability :: "report \<Rightarrow> string \<Rightarrow> bool \<Rightarrow> py_error + report" where
  "set_compatability REPORT grp flag =
     (case models REPORT of
        None \<Rightarrow> Inl (KeyError ''models'')
      | Some m \<Rightarrow>
          (case compatability m of
             None \<Rightarrow> Inl (KeyError ''compatability'')
           | Some c \<Rightarrow> Inr (REPORT\<lparr>models := Some (m\<lparr>compatability := Some (c(grp \<mapsto> flag))\<rparr>)\<rparr>)))"

definition diff_models :: "descriptor list \<Rightarrow> descriptor list \<Rightarrow> string \<Rightarrow> report \<Rightarrow> py_error + nat \<times> report" where
  "diff_models a b grp REPORT =
     (if a = b then
        (case set_compatability REPORT grp True of
           Inl e \<Rightarrow> Inl e
         | Inr REPORT1 \<Rightarrow> Inr (0, REPORT1))
      else
        (case set_compatability REPORT grp False of
           Inl e \<Rightarrow> Inl e
         | Inr REPORT1 \<Rightarrow>
             Inr (1, REPORT1\<lparr>groups := (groups REPORT1)(grp \<mapsto>
               \<lparr>a_vs_b = ''Model A contains one or more layers missing from Model B:'',
                a_layers_e = append_all [] (a_minus_b a b),
                b_vs_a = ''Model B contains one or more layers missing from Model A:'',
                b_layers_e = append_all [] (b_minus_a a b),
                symantic_difference = append_all [] (sym_diff a b)\<rparr>)\<rparr>)))"

text \<open>The flag a report holds for a group label, when it holds one.\<close>

definition compatible :: "report \<Rightarrow> string \<Rightarrow> bool option" where
  "compatible REPORT grp =
     (case models REPORT of
        None \<Rightarrow> None
      | Some m \<Rightarrow> (case compatability m of None \<Rightarrow> None | Some c \<Rightarrow> c grp))"

subsection \<open>main\<close>

text \<open>
  \<^verbatim>\<open>argparse\<close> restricts \<^verbatim>\<open>--layer_type\<close> to three choices; \<^verbatim>\<open>main\<close> upper-cases
  the chosen string.
\<close>

datatype layer_choice = Choice_inputs | Choice_outputs | Choice_both

fun choice_upper :: "layer_choice \<Rightarrow> string" where
  "choice_upper Choice_inputs = ''INPUTS''"
| "choice_upper Choice_outputs = ''OUTPUTS''"
| "choice_upper Choice_both = ''BOTH''"

record args =
  arg_model_a :: string
  arg_model_b :: string
  arg_layer_type :: layer_choice
  arg_indent :: int
  arg_output_uri :: "string option"

text \<open>
  The file system and the model runtime are parameters of \<^verbatim>\<open>main\<close>: \<open>is_file\<close>,
  \<open>abspath\<close>, and \<open>session\<close>, which gives the input and output layers of the model at a
  path, or the text of the exception the runtime raises (the error \<open>External\<close>).
\<close>

record world =
  is_file :: "string \<Rightarrow> bool"
  abspath :: "string \<Rightarrow> string"
  session :: "string \<Rightarrow> string + node_arg list \<times> node_arg list"

definition endswith :: "string \<Rightarrow> string \<Rightarrow> bool" where
  "endswith s suffix = (length suffix \<le> length s \<and> drop (length s - length suffix) s = suffix)"

definition layers_of :: "world \<Rightarrow> string \<Rightarrow> py_error + container" where
  "layers_of w model_file =
     (case session w model_file of
        Inl msg \<Rightarrow> Inl (External msg)
      | Inr (input_layers, output_layers) \<Rightarrow> get_in_out_layers input_layers output_layers)"

definition getitem :: "(string \<rightharpoonup> 'v) \<Rightarrow> string \<Rightarrow> py_error + 'v" where
  "getitem d k = (case d k of None \<Rightarrow> Inl (KeyError k) | Some v \<Rightarrow> Inr v)"

text \<open>
  Lines 186 to 190: each status variable is bound only under its own condition, so a
  local variable is an \<open>option\<close>, \<open>None\<close> while unbound.
\<close>

definition run_inputs :: "string \<Rightarrow> container \<Rightarrow> container \<Rightarrow> report \<Rightarrow> py_error + nat option \<times> report" where
  "run_inputs layer_type al bl REPORT =
     (if layer_type \<in> set [''BOTH'', ''INPUTS''] then
        (case getitem al ''inputs'' of
           Inl e \<Rightarrow> Inl e
         | Inr a \<Rightarrow>
             (case getitem bl ''inputs'' of
                Inl e \<Rightarrow> Inl e
              | Inr b \<Rightarrow>
                  (case diff_models a b ''Inputs'' REPORT of
                     Inl e \<Rightarrow> Inl e
                   | Inr (s, REPORT1) \<Rightarrow> Inr (Some s, REPORT1))))
      else Inr (None, REPORT))"

definition run_outputs :: "string \<Rightarrow> container \<Rightarrow> container \<Rightarrow> report \<Rightarrow> py_error + nat option \<times> report" where
  "run_outputs layer_type al bl REPORT =
     (if layer_type \<in> set [''BOTH'', ''OUTPUTS''] then
        (case getitem al ''outputs'' of
           Inl e \<Rightarrow> Inl e
         | Inr a \<Rightarrow>
             (case getitem bl ''outputs'' of
                Inl e \<Rightarrow> Inl e
              | Inr b \<Rightarrow>
                  (case diff_models a b ''Outputs'' REPORT of
                     Inl e \<Rightarrow> Inl e
                   | Inr (s, REPORT1) \<Rightarrow> Inr (Some s, REPORT1))))
      else Inr (None, REPORT))"

text \<open>
  Lines 192 to 202: the sum of the two status variables (reading an unbound one raises
  \<^verbatim>\<open>UnboundLocalError\<close>), the exit status, and the report written to
  \<^verbatim>\<open>args.output_uri\<close> (\<^verbatim>\<open>open(None, 'w')\<close> raises \<^verbatim>\<open>TypeError\<close>; a write to a
  path is taken to succeed). \<open>Inr\<close> is \<^verbatim>\<open>sys.exit(status)\<close>.
\<close>

definition finish :: "string option \<Rightarrow> nat option \<Rightarrow> nat option \<Rightarrow> report \<Rightarrow> py_error + nat \<times> report" where
  "finish output_uri input_status output_status REPORT =
     (case input_status of
        None \<Rightarrow> Inl (UnboundLocalError ''input_status'')
      | Some i \<Rightarrow>
          (case output_status of
             None \<Rightarrow> Inl (UnboundLocalError ''output_status'')
           | Some o1 \<Rightarrow>
               (let all_status = i + o1;
                    status = (if all_status = EXIT_STATUS_SUCCESS then EXIT_STATUS_SUCCESS
                              else EXIT_STATUS_ERROR);
                    REPORT1 = REPORT\<lparr>exit_status := Some status\<rparr>
                in case output_uri of
                     None \<Rightarrow> Inl TypeError
                   | Some uri \<Rightarrow> Inr (status, REPORT1))))"

text \<open>Lines 175 to 190, once \<^verbatim>\<open>model_a\<close> and \<^verbatim>\<open>model_b\<close> are bound.\<close>

definition compare :: "world \<Rightarrow> args \<Rightarrow> string \<Rightarrow> string \<Rightarrow> py_error + (nat option \<times> nat option) \<times> report" where
  "compare w args ma mb =
     (let REPORT = empty_report\<lparr>models := Some \<lparr>model_a = Some (abspath w ma),
                                                 model_b = Some (abspath w mb),
                                                 compatability = Some Map.empty\<rparr>\<rparr>;
          layer_type = choice_upper (arg_layer_type args)
      in case layers_of w ma of
           Inl e \<Rightarrow> Inl e
         | Inr layers_a \<Rightarrow>
             (case layers_of w mb of
                Inl e \<Rightarrow> Inl e
              | Inr layers_b \<Rightarrow>
                  (case run_inputs layer_type layers_a layers_b REPORT of
                     Inl e \<Rightarrow> Inl e
                   | Inr (input_status, REPORT1) \<Rightarrow>
                       (case run_outputs layer_type layers_a layers_b REPORT1 of
                          Inl e \<Rightarrow> Inl e
                        | Inr (output_status, REPORT2) \<Rightarrow>
                            Inr ((input_status, output_status), REPORT2)))))"

definition main :: "world \<Rightarrow> args \<Rightarrow> py_error + nat \<times> report" where
  "main w args =
     (let model_a = (if is_file w (arg_model_a args) then Some (arg_model_a args) else None);
          model_b = (if is_file w (arg_model_b args) then Some (arg_model_b args) else None);
          output_uri = (case arg_output_uri args of
                          None \<Rightarrow> None
                        | Some uri \<Rightarrow> if \<not> endswith uri ''.json'' then Some (uri @ ''.json'')
                                      else Some uri)
      in case model_a of
           None \<Rightarrow> Inl (UnboundLocalError ''model_a'')
         | Some ma \<Rightarrow>
             (case model_b of
                None \<Rightarrow> Inl (UnboundLocalError ''model_b'')
              | Some mb \<Rightarrow>
                  (case compare w args ma mb of
                     Inl e \<Rightarrow> Inl e
                   | Inr ((input_status, output_status), REPORT) \<Rightarrow>
                       finish output_uri input_status output_status REPORT)))"

text \<open>The status the operating system sees.\<close>

fun process_exit_status :: "py_error + nat \<times> report \<Rightarrow> nat" where
  "process_exit_status (Inl e) = 1"
| "process_exit_status (Inr (status, REPORT)) = status"

section \<open>set_onnx_metadata.py: validating and writing metadata\<close>

subsection \<open>Values read from the configuration\<close>

text \<open>
  What \<^verbatim>\<open>json.load\<close> returns: \<^verbatim>\<open>None\<close>, \<^verbatim>\<open>bool\<close>, \<^verbatim>\<open>int\<close> (unbounded),
  \<^verbatim>\<open>float\<close> (a finite float, as the number it denotes), \<^verbatim>\<open>str\<close>, \<^verbatim>\<open>list\<close> and
  \<^verbatim>\<open>dict\<close>. A dictionary keeps the order of insertion and its keys are distinct; it is
  an association list. Strings are ASCII text.
\<close>

datatype json =
    JNull
  | JBool bool
  | JInt int
  | JFloat real
  | JStr string
  | JList "json list"
  | JObj "(string \<times> json) list"

type_synonym py_dict = "(string \<times> json) list"

definition METADATA :: "(string \<times> string) list" where
  "METADATA =
     [(''model_type'', ''String: Object Detection, Pixel Segmentation, etc.''),
      (''model_architecture'', ''String: Detectron 2, SAM, Custom, etc.''),
      (''number_of_classes'', ''Integer: Number of trained classes, e.g., 1, 2, 3, etc.''),
      (''number_of_bands'', ''Integer: Number of bands the model trained with, e.g., 3''),
      (''number_of_epochs'', ''Integer: How many epochs did the model train, e.g., 100''),
      (''class_names'', ''List[str]: Class ID ordered class names, e.g., [person, car, ...]''),
      (''vendor_name'', ''String: Company distributing the model, e.g. NV5''),
      (''model_author'', ''String: Original author of the model architecture, e.g., clees''),
      (''model_license'', ''String: License for the model, e.g., Apache 2.0''),
      (''model_version'', ''Integer: Nth version of the model distributed to NV5, e.g., 1, 2, etc.''),
      (''model_date'', ''String: Date for which the model is ready, e.g., 2025-01-01'')]"

definition TYPES :: "(string \<times> py_type) list" where
  "TYPES =
     [(''model_type'', T_str), (''model_architecture'', T_str), (''number_of_classes'', T_int),
      (''number_of_bands'', T_int), (''number_of_epochs'', T_int), (''class_names'', T_list),
      (''vendor_name'', T_str), (''model_author'', T_str), (''model_license'', T_str),
      (''model_version'', T_int), (''model_date'', T_str)]"

definition NON_PERMISIVE_LICENSES :: "string list" where
  "NON_PERMISIVE_LICENSES =
     [''GPL'', ''AGPL'', ''LGPL'',
      ''CC BY-NC'', ''CC BY-NC-SA'',
      ''CC BY-ND'', ''CC BY-NC-ND'',
      ''GNU'', ''APSL'', ''EPL'', ''MPL'']"

subsection \<open>Python built-ins the validator calls\<close>

text \<open>\<^verbatim>\<open>isinstance\<close>: \<^verbatim>\<open>bool\<close> is a subclass of \<^verbatim>\<open>int\<close>, so a boolean is an instance of \<^verbatim>\<open>int\<close>.\<close>

fun isinstance :: "json \<Rightarrow> py_type \<Rightarrow> bool" where
  "isinstance (JStr s) T_str = True"
| "isinstance (JInt n) T_int = True"
| "isinstance (JBool b) T_int = True"
| "isinstance (JList xs) T_list = True"
| "isinstance v t = False"

text \<open>\<^verbatim>\<open>s.startswith(sub)\<close>, \<^verbatim>\<open>sub in s\<close> and \<^verbatim>\<open>s.find(sub)\<close> (the lowest index, or \<open>-1\<close>).\<close>

definition startswith :: "string \<Rightarrow> string \<Rightarrow> bool" where
  "startswith s sub = (take (length sub) s = sub)"

fun occurs_in :: "string \<Rightarrow> string \<Rightarrow> bool" where
  "occurs_in sub [] = (sub = [])"
| "occurs_in sub (c # cs) = (startswith (c # cs) sub \<or> occurs_in sub cs)"

fun find_from :: "string \<Rightarrow> string \<Rightarrow> nat \<Rightarrow> int" where
  "find_from [] sub i = (if sub = [] then int i else - 1)"
| "find_from (c # cs) sub i = (if startswith (c # cs) sub then int i else find_from cs sub (i + 1))"

definition str_find :: "string \<Rightarrow> string \<Rightarrow> int" where
  "str_find s sub = find_from s sub 0"

text \<open>\<^verbatim>\<open>s.upper()\<close> on ASCII text.\<close>

definition upper_char :: "char \<Rightarrow> char" where
  "upper_char c =
     (case map_of (zip ''abcdefghijklmnopqrstuvwxyz'' ''ABCDEFGHIJKLMNOPQRSTUVWXYZ'') c of
        None \<Rightarrow> c
      | Some u \<Rightarrow> u)"

definition upper :: "string \<Rightarrow> string" where
  "upper s = map upper_char s"

text \<open>\<^verbatim>\<open>len(v)\<close>, and \<^verbatim>\<open>n != v\<close> for an integer \<open>n\<close> (\<^verbatim>\<open>True\<close> is 1, \<^verbatim>\<open>False\<close> is 0).\<close>

fun py_len :: "json \<Rightarrow> py_error + nat" where
  "py_len (JList xs) = Inr (length xs)"
| "py_len (JStr s) = Inr (length s)"
| "py_len (JObj kvs) = Inr (length kvs)"
| "py_len v = Inl TypeError"

fun int_ne :: "nat \<Rightarrow> json \<Rightarrow> bool" where
  "int_ne n (JInt m) = (int n \<noteq> m)"
| "int_ne n (JBool b) = (n \<noteq> (if b then 1 else 0))"
| "int_ne n (JFloat r) = (real n \<noteq> r)"
| "int_ne n v = True"

subsection \<open>_metadata_validator\<close>

text \<open>Lines 110 to 114: the required keys.\<close>

definition check_keys :: "py_dict \<Rightarrow> py_error + unit" where
  "check_keys metadata =
     (let keys = map fst metadata;
          meta_keys = map fst METADATA
      in if \<not> set meta_keys \<subseteq> set keys
         then Inl (SystemExit (Missing_configuration_keys (set meta_keys - set keys)))
         else Inr ())"

text \<open>
  Lines 117 to 126: the loop over \<^verbatim>\<open>metadata.items()\<close>. \<open>wrong_type\<close> is the test
  \<^verbatim>\<open>key in TYPES and not isinstance(metadata[key], TYPES[key])\<close>, giving the declared
  type when the test holds. \<^verbatim>\<open>METADATA[key]\<close> raises \<^verbatim>\<open>KeyError\<close> for a key the
  template does not have.
\<close>

definition wrong_type :: "string \<Rightarrow> json \<Rightarrow> py_type option" where
  "wrong_type key v =
     (case map_of TYPES key of
        None \<Rightarrow> None
      | Some t \<Rightarrow> if \<not> isinstance v t then Some t else None)"

fun check_items :: "py_dict \<Rightarrow> (string \<times> json) list \<Rightarrow> py_error + unit" where
  "check_items metadata [] = Inr ()"
| "check_items metadata ((key, val) # items) =
     (if val = JNull \<or> val = JStr [] then Inl (SystemExit (Invalid_empty_value key))
      else
        (case map_of metadata key of
           None \<Rightarrow> Inl (KeyError key)
         | Some v \<Rightarrow>
             (case wrong_type key v of
                Some t \<Rightarrow> Inl (SystemExit (Metadata_should_be key t))
              | None \<Rightarrow>
                  (case v of
                     JStr s \<Rightarrow>
                       (case map_of METADATA key of
                          None \<Rightarrow> Inl (KeyError key)
                        | Some template \<Rightarrow>
                            if occurs_in template s
                            then Inl (SystemExit (Value_matches_template key))
                            else check_items metadata items)
                   | _ \<Rightarrow> check_items metadata items))))"

text \<open>Lines 129 to 134: the number of class names.\<close>

definition check_classes :: "py_dict \<Rightarrow> py_error + unit" where
  "check_classes metadata =
     (case map_of metadata ''class_names'' of
        None \<Rightarrow> Inl (KeyError ''class_names'')
      | Some names \<Rightarrow>
          (case py_len names of
             Inl e \<Rightarrow> Inl e
           | Inr n_class_names \<Rightarrow>
               (case map_of metadata ''number_of_classes'' of
                  None \<Rightarrow> Inl (KeyError ''number_of_classes'')
                | Some number_of_classes \<Rightarrow>
                    if int_ne n_class_names number_of_classes
                    then Inl (SystemExit (Number_of_class_names n_class_names))
                    else Inr ())))"

text \<open>Lines 137 to 140: the licence.\<close>

fun license_loop :: "string \<Rightarrow> string list \<Rightarrow> py_error + unit" where
  "license_loop lic [] = Inr ()"
| "license_loop lic (npl # npls) =
     (if str_find lic npl > 0 then Inl (SystemExit (Non_commercial_license lic))
      else license_loop lic npls)"

definition check_license :: "py_dict \<Rightarrow> py_error + unit" where
  "check_license metadata =
     (case map_of metadata ''model_license'' of
        None \<Rightarrow> Inl (KeyError ''model_license'')
      | Some (JStr s) \<Rightarrow> license_loop (upper s) NON_PERMISIVE_LICENSES
      | Some _ \<Rightarrow> Inl AttributeError)"

definition metadata_validator :: "py_dict \<Rightarrow> py_error + unit" where
  "metadata_validator metadata =
     (case check_keys metadata of
        Inl e \<Rightarrow> Inl e
      | Inr _ \<Rightarrow>
          (case check_items metadata metadata of
             Inl e \<Rightarrow> Inl e
           | Inr _ \<Rightarrow>
               (case check_classes metadata of
                  Inl e \<Rightarrow> Inl e
                | Inr _ \<Rightarrow> check_license metadata)))"

subsection \<open>_add_metadata\<close>

text \<open>
  Of a model the program touches the repeated field \<^verbatim>\<open>metadata_props\<close> only; the rest
  of the \<^verbatim>\<open>ModelProto\<close> is the field \<open>graph\<close>. \<^verbatim>\<open>json.dumps\<close> is the library's
  encoder, a parameter here.
\<close>

record model_proto =
  graph :: string
  metadata_props :: "(string \<times> string) list"

fun add_entries :: "(json \<Rightarrow> string) \<Rightarrow> model_proto \<Rightarrow> (string \<times> json) list \<Rightarrow> model_proto" where
  "add_entries dumps model [] = model"
| "add_entries dumps model ((key, val) # items) =
     add_entries dumps (model\<lparr>metadata_props := metadata_props model @ [(key, dumps val)]\<rparr>) items"

definition add_metadata :: "(json \<Rightarrow> string) \<Rightarrow> model_proto \<Rightarrow> py_dict \<Rightarrow> model_proto" where
  "add_metadata dumps model dict_data = add_entries dumps (model\<lparr>metadata_props := []\<rparr>) dict_data"

subsection \<open>_write_model_metadata\<close>

text \<open>
  The files and the libraries are parameters: reading the configuration, the two
  \<^verbatim>\<open>Path\<close> queries, \<^verbatim>\<open>onnx.load\<close>, \<^verbatim>\<open>onnx.save\<close> (\<open>None\<close> when it succeeds) and
  \<^verbatim>\<open>json.dumps\<close>. Where one of them raises, it gives the text of its exception
  (the error \<open>External\<close>).
\<close>

record env =
  json_load :: "string \<Rightarrow> string + json"
  path_is_file :: "string \<Rightarrow> bool"
  path_suffix :: "string \<Rightarrow> string"
  onnx_load :: "string \<Rightarrow> string + model_proto"
  onnx_save :: "model_proto \<Rightarrow> string \<Rightarrow> string option"
  json_dumps :: "json \<Rightarrow> string"

text \<open>\<^verbatim>\<open>k not in data\<close> and \<^verbatim>\<open>data[k]\<close> for a string \<open>k\<close>, on any value.\<close>

fun not_in :: "string \<Rightarrow> json \<Rightarrow> py_error + bool" where
  "not_in k (JObj kvs) = Inr (k \<notin> set (map fst kvs))"
| "not_in k (JList xs) = Inr (JStr k \<notin> set xs)"
| "not_in k (JStr s) = Inr (\<not> occurs_in k s)"
| "not_in k v = Inl TypeError"

fun subscript :: "json \<Rightarrow> string \<Rightarrow> py_error + json" where
  "subscript (JObj kvs) k = (case map_of kvs k of None \<Rightarrow> Inl (KeyError k) | Some v \<Rightarrow> Inr v)"
| "subscript v k = Inl TypeError"

text \<open>Lines 158 to 167: the model path.\<close>

definition read_model_uri :: "env \<Rightarrow> json \<Rightarrow> py_error + string" where
  "read_model_uri E data =
     (case not_in ''model_uri'' data of
        Inl e \<Rightarrow> Inl e
      | Inr missing \<Rightarrow>
          if missing then Inl (SystemExit Model_uri_missing)
          else
            (case subscript data ''model_uri'' of
               Inl e \<Rightarrow> Inl e
             | Inr (JStr model_uri) \<Rightarrow>
                 if \<not> path_is_file E model_uri then Inl (SystemExit (Invalid_model_file model_uri))
                 else if path_suffix E model_uri \<noteq> ''.onnx'' then Inl (SystemExit Invalid_model_extension)
                 else Inr model_uri
             | Inr _ \<Rightarrow> Inl TypeError))"

text \<open>Lines 172 to 177: the metadata dictionary.\<close>

definition read_metadata :: "json \<Rightarrow> py_error + py_dict" where
  "read_metadata data =
     (case not_in ''metadata'' data of
        Inl e \<Rightarrow> Inl e
      | Inr missing \<Rightarrow>
          if missing then Inl (SystemExit Metadata_missing)
          else
            (case subscript data ''metadata'' of
               Inl e \<Rightarrow> Inl e
             | Inr (JObj metadata) \<Rightarrow> Inr metadata
             | Inr _ \<Rightarrow> Inl (SystemExit Metadata_not_flat_dictionary)))"

text \<open>Lines 183 to 191: load, write the entries, count them, save.\<close>

definition commit :: "env \<Rightarrow> string \<Rightarrow> string \<Rightarrow> py_dict \<Rightarrow> py_error + string \<times> model_proto" where
  "commit E model_uri output_uri metadata =
     (case onnx_load E model_uri of
        Inl msg \<Rightarrow> Inl (External msg)
      | Inr model0 \<Rightarrow>
          (let model = add_metadata (json_dumps E) model0 metadata
           in if length (metadata_props model) \<noteq> 0 then
                (case onnx_save E model output_uri of
                   Some msg \<Rightarrow> Inl (External msg)
                 | None \<Rightarrow> Inr (output_uri, model))
              else Inl (SystemExit (Failed_to_write_metadata output_uri))))"

definition write_model_metadata :: "env \<Rightarrow> string \<Rightarrow> string option \<Rightarrow> py_error + string \<times> model_proto" where
  "write_model_metadata E config_uri output_uri =
     (case json_load E config_uri of
        Inl msg \<Rightarrow> Inl (External msg)
      | Inr data \<Rightarrow>
          (case read_model_uri E data of
             Inl e \<Rightarrow> Inl e
           | Inr model_uri \<Rightarrow>
               (let output_uri1 = (case output_uri of None \<Rightarrow> model_uri | Some uri \<Rightarrow> uri)
                in case read_metadata data of
                     Inl e \<Rightarrow> Inl e
                   | Inr metadata \<Rightarrow>
                       (case metadata_validator metadata of
                          Inl e \<Rightarrow> Inl e
                        | Inr _ \<Rightarrow> commit E model_uri output_uri1 metadata))))"

section \<open>What the claims observe\<close>

subsection \<open>Of diff_models\<close>

text \<open>A report on which \<^verbatim>\<open>main\<close> has run lines 175 to 178.\<close>

definition initialised :: "report \<Rightarrow> bool" where
  "initialised REPORT =
     (case models REPORT of
        None \<Rightarrow> False
      | Some m \<Rightarrow> (case compatability m of None \<Rightarrow> False | Some c \<Rightarrow> True))"

text \<open>
  The status \<open>diff_models\<close> returns, the flag it leaves in the report for its group, and
  the two one-sided lists it writes there (\<open>None\<close> where it raises or writes none).
\<close>

definition returned_status :: "descriptor list \<Rightarrow> descriptor list \<Rightarrow> string \<Rightarrow> report \<Rightarrow> nat option" where
  "returned_status a b grp REPORT =
     (case diff_models a b grp REPORT of Inl e \<Rightarrow> None | Inr (s, R) \<Rightarrow> Some s)"

definition reported_flag :: "descriptor list \<Rightarrow> descriptor list \<Rightarrow> string \<Rightarrow> report \<Rightarrow> bool option" where
  "reported_flag a b grp REPORT =
     (case diff_models a b grp REPORT of Inl e \<Rightarrow> None | Inr (s, R) \<Rightarrow> compatible R grp)"

definition reported_lists :: "descriptor list \<Rightarrow> descriptor list \<Rightarrow> string \<Rightarrow> report \<Rightarrow> (descriptor list \<times> descriptor list) option" where
  "reported_lists a b grp REPORT =
     (case diff_models a b grp REPORT of
        Inl e \<Rightarrow> None
      | Inr (s, R) \<Rightarrow> map_option (\<lambda>e. (a_layers_e e, b_layers_e e)) (groups R grp))"

text \<open>A sequence as \<^verbatim>\<open>parse_layers\<close> builds it: the \<^verbatim>\<open>id\<close> of a descriptor is its position.\<close>

definition indexed :: "descriptor list \<Rightarrow> bool" where
  "indexed xs = (map id_d xs = [0..<length xs])"

text \<open>
  The descriptors \<^verbatim>\<open>parse_layers\<close> appends for a list of layers when its counter starts
  at \<open>idx\<close>.
\<close>

fun numbered :: "nat \<Rightarrow> node_arg list \<Rightarrow> descriptor list" where
  "numbered idx [] = []"
| "numbered idx (layer # layers) =
     \<lparr>id_d = idx, name_d = name layer, shape_d = shape layer\<rparr> # numbered (idx + 1) layers"

subsection \<open>Of the licence check\<close>

text \<open>The string \<open>sub\<close> stands in \<open>s\<close> at position \<open>i\<close>.\<close>

definition occurs_at :: "string \<Rightarrow> string \<Rightarrow> nat \<Rightarrow> bool" where
  "occurs_at s sub i = (i + length sub \<le> length s \<and> take (length sub) (drop i s) = sub)"

text \<open>
  The licence holds a token of the deny-list at some position after its first character:
  the reading of the licence check that looks at every position.
\<close>

definition token_after_start :: "string \<Rightarrow> bool" where
  "token_after_start lic =
     (\<exists>npl\<in>set NON_PERMISIVE_LICENSES. \<exists>i\<in>set [1..<Suc (length lic)]. occurs_at lic npl i)"

subsection \<open>Of the write\<close>

text \<open>The error of the branch \<^verbatim>\<open>Failed to write metadata\<close>.\<close>

definition write_failure :: "py_error \<Rightarrow> bool" where
  "write_failure e = (case e of SystemExit (Failed_to_write_metadata u) \<Rightarrow> True | _ \<Rightarrow> False)"

section \<open>Concrete inputs\<close>

definition initial_report :: report where
  "initial_report =
     empty_report\<lparr>models := Some \<lparr>model_a = Some ''/models/a.onnx'', model_b = Some ''/models/b.onnx'',
                                  compatability = Some Map.empty\<rparr>\<rparr>"

definition layer_x :: descriptor where
  "layer_x = \<lparr>id_d = 0, name_d = ''x'', shape_d = [Fixed 1, Fixed 3]\<rparr>"

definition layer_y :: descriptor where
  "layer_y = \<lparr>id_d = 1, name_d = ''y'', shape_d = [Fixed 1]\<rparr>"

text \<open>Two model files with the same single input and the same single output.\<close>

definition same_models :: world where
  "same_models =
     \<lparr>is_file = (\<lambda>p. True),
      abspath = (\<lambda>p. ''/models/'' @ p),
      session = (\<lambda>p. Inr ([\<lparr>name = ''x'', shape = [Fixed 1, Fixed 3]\<rparr>],
                           [\<lparr>name = ''y'', shape = [Fixed 1]\<rparr>]))\<rparr>"

definition args_of :: "layer_choice \<Rightarrow> args" where
  "args_of choice =
     \<lparr>arg_model_a = ''a.onnx'', arg_model_b = ''b.onnx'', arg_layer_type = choice,
      arg_indent = 0, arg_output_uri = Some ''report.json''\<rparr>"

text \<open>A record with the eleven keys, for a given class count, list of class names and licence.\<close>

definition record_with :: "json \<Rightarrow> json \<Rightarrow> json \<Rightarrow> py_dict" where
  "record_with number_of_classes class_names model_license =
     [(''model_type'', JStr ''Object Detection''),
      (''model_architecture'', JStr ''Custom''),
      (''number_of_classes'', number_of_classes),
      (''number_of_bands'', JInt 3),
      (''number_of_epochs'', JInt 100),
      (''class_names'', class_names),
      (''vendor_name'', JStr ''NV5''),
      (''model_author'', JStr ''clees''),
      (''model_license'', model_license),
      (''model_version'', JInt 1),
      (''model_date'', JStr ''2025-01-01'')]"

definition licensed :: "string \<Rightarrow> py_dict" where
  "licensed lic = record_with (JInt 2) (JList [JStr ''person'', JStr ''car'']) (JStr lic)"

text \<open>The same record without its last key, \<^verbatim>\<open>model_date\<close>, and with a class count of the wrong type.\<close>

definition undated :: py_dict where
  "undated = butlast (record_with (JStr ''two'') (JList [JStr ''person'', JStr ''car'']) (JStr ''MIT''))"

definition a_model :: model_proto where
  "a_model = \<lparr>graph = ''net'', metadata_props = [(''old'', ''1'')]\<rparr>"

text \<open>
  An encoder to run the write on: it stands where \<^verbatim>\<open>json.dumps\<close> does and is right on
  \<^verbatim>\<open>null\<close>, the booleans and strings that need no escape.
\<close>

definition plain_dumps :: "json \<Rightarrow> string" where
  "plain_dumps v =
     (case v of
        JNull \<Rightarrow> ''null''
      | JBool b \<Rightarrow> (if b then ''true'' else ''false'')
      | JStr s \<Rightarrow> [CHR 0x22] @ s @ [CHR 0x22]
      | _ \<Rightarrow> ''0'')"

text \<open>A configuration file naming the model \<^verbatim>\<open>net.onnx\<close>, an existing file that loads and saves.\<close>

definition files :: env where
  "files =
     \<lparr>json_load = (\<lambda>p. Inr (JObj [(''model_uri'', JStr ''net.onnx''),
                                   (''metadata'', JObj (licensed ''MIT''))])),
      path_is_file = (\<lambda>p. True),
      path_suffix = (\<lambda>p. ''.onnx''),
      onnx_load = (\<lambda>p. Inr a_model),
      onnx_save = (\<lambda>m p. None),
      json_dumps = plain_dumps\<rparr>"

section \<open>Properties of the interface diff\<close>

lemma append_all_append: "append_all target ds = target @ ds"
  by (induction ds arbitrary: target) simp_all

lemma set_compatability_initialised:
  assumes "initialised REPORT"
  shows "\<exists>R. set_compatability REPORT grp flag = Inr R \<and> compatible R grp = Some flag"
proof -
  from assms obtain m where m: "models REPORT = Some m"
    by (cases "models REPORT") (simp_all add: initialised_def)
  from assms m obtain c where c: "compatability m = Some c"
    by (cases "compatability m") (simp_all add: initialised_def)
  show ?thesis using m c by (simp add: set_compatability_def compatible_def)
qed

lemma reported_flag_eq:
  assumes "initialised REPORT"
  shows "reported_flag a b grp REPORT = Some (a = b)"
proof -
  obtain R where R: "set_compatability REPORT grp (a = b) = Inr R" "compatible R grp = Some (a = b)"
    using set_compatability_initialised [OF assms] by blast
  show ?thesis
  proof (cases "a = b")
    case True
    with R show ?thesis by (simp add: reported_flag_def diff_models_def)
  next
    case False
    with R show ?thesis by (simp add: reported_flag_def diff_models_def compatible_def)
  qed
qed

lemma returned_status_eq:
  assumes "initialised REPORT"
  shows "returned_status a b grp REPORT = Some (if a = b then 0 else 1)"
proof -
  obtain R where R: "set_compatability REPORT grp (a = b) = Inr R"
    using set_compatability_initialised [OF assms] by blast
  show ?thesis
  proof (cases "a = b")
    case True
    with R show ?thesis by (simp add: returned_status_def diff_models_def)
  next
    case False
    with R show ?thesis by (simp add: returned_status_def diff_models_def)
  qed
qed

lemma reported_lists_eq:
  assumes "initialised REPORT" and "a \<noteq> b"
  shows "reported_lists a b grp REPORT = Some (a_minus_b a b, b_minus_a a b)"
proof -
  obtain R where R: "set_compatability REPORT grp False = Inr R"
    using set_compatability_initialised [OF assms(1)] by blast
  show ?thesis using R assms(2)
    by (simp add: reported_lists_def diff_models_def append_all_append)
qed

lemma a_minus_b_empty_iff: "a_minus_b a b = [] \<longleftrightarrow> set a \<subseteq> set b"
  by (simp add: a_minus_b_def filter_empty_conv subset_eq)

lemma b_minus_a_empty_iff: "b_minus_a a b = [] \<longleftrightarrow> set b \<subseteq> set a"
  by (simp add: b_minus_a_def filter_empty_conv subset_eq)

text \<open>Two lists whose elements carry their own positions are equal once they have the same elements.\<close>

lemma positional_keys_eq:
  fixes a b :: "'a list" and f :: "'a \<Rightarrow> nat"
  assumes a: "map f a = [0..<length a]" and b: "map f b = [0..<length b]"
    and s: "set a = set b"
  shows "a = b"
proof -
  have fa: "f (a ! i) = i" if "i < length a" for i
  proof -
    from a have "map f a ! i = [0..<length a] ! i" by simp
    with that show ?thesis by simp
  qed
  have fb: "f (b ! j) = j" if "j < length b" for j
  proof -
    from b have "map f b ! j = [0..<length b] ! j" by simp
    with that show ?thesis by simp
  qed
  have "set (map f a) = set (map f b)" using s by simp
  then have "{0..<length a} = {0..<length b}" by (simp only: a b set_upt)
  then have "card {0..<length a} = card {0..<length b}" by (rule arg_cong)
  then have len: "length a = length b" by simp
  have "a ! i = b ! i" if i: "i < length a" for i
  proof -
    have "a ! i \<in> set a" using i by (rule nth_mem)
    then have "a ! i \<in> set b" by (simp only: s)
    then obtain j where j: "j < length b" "b ! j = a ! i" by (metis in_set_conv_nth)
    have "j = i" using fa [OF i] fb [OF j(1)] j(2) by simp
    with j show ?thesis by simp
  qed
  with len show ?thesis by (simp add: nth_equalityI)
qed

lemma indexed_set_eq: "indexed a \<Longrightarrow> indexed b \<Longrightarrow> set a = set b \<Longrightarrow> a = b"
  unfolding indexed_def by (rule positional_keys_eq)

lemma initialised_initial_report: "initialised initial_report"
  by (simp add: initialised_def initial_report_def empty_report_def)

lemma layer_x_neq_y: "layer_x \<noteq> layer_y"
  by (simp add: layer_x_def layer_y_def)

text \<open>
  Claim C8. Comparing a descriptor sequence against itself, under any group label and on
  any initialised report, returns status 0, records the group as compatible, and both
  one-sided difference lists are empty.
\<close>

theorem diff_models_reflexive:
  "initialised REPORT \<Longrightarrow>
     returned_status a a grp REPORT = Some 0 \<and> reported_flag a a grp REPORT = Some True \<and>
     a_minus_b a a = [] \<and> b_minus_a a a = []"
  by (simp add: returned_status_eq reported_flag_eq a_minus_b_empty_iff b_minus_a_empty_iff)

text \<open>The reflexivity theorem at the sequence of the two layers \<open>x\<close> and \<open>y\<close>.\<close>

theorem diff_models_reflexive_witness:
  "initialised initial_report \<and>
     returned_status [layer_x, layer_y] [layer_x, layer_y] ''Inputs'' initial_report = Some 0 \<and>
     reported_flag [layer_x, layer_y] [layer_x, layer_y] ''Inputs'' initial_report = Some True \<and>
     a_minus_b [layer_x, layer_y] [layer_x, layer_y] = [] \<and>
     b_minus_a [layer_x, layer_y] [layer_x, layer_y] = []"
  using diff_models_reflexive [OF initialised_initial_report, of "[layer_x, layer_y]" "''Inputs''"]
    initialised_initial_report
  by simp

text \<open>
  Claim C3. When \<open>a\<close> and \<open>b\<close> hold the same multiset of descriptors in a different order,
  \<open>diff_models\<close> returns status 1 and records the group as not compatible, while both
  one-sided difference lists, as computed and as written to the report, are empty.
\<close>

theorem diff_models_reordered:
  "initialised REPORT \<Longrightarrow> mset a = mset b \<Longrightarrow> a \<noteq> b \<Longrightarrow>
     returned_status a b grp REPORT = Some 1 \<and> reported_flag a b grp REPORT = Some False \<and>
     a_minus_b a b = [] \<and> b_minus_a a b = [] \<and>
     reported_lists a b grp REPORT = Some ([], [])"
proof -
  assume i: "initialised REPORT" and m: "mset a = mset b" and ne: "a \<noteq> b"
  from m have "set a = set b" by (rule mset_eq_setD)
  then have e: "a_minus_b a b = []" "b_minus_a a b = []"
    by (simp_all add: a_minus_b_empty_iff b_minus_a_empty_iff)
  show ?thesis using i ne e by (simp add: returned_status_eq reported_flag_eq reported_lists_eq)
qed

text \<open>The two layers \<open>x\<close> and \<open>y\<close> against the same two layers swapped.\<close>

theorem diff_models_reordered_witness:
  "initialised initial_report \<and> mset [layer_x, layer_y] = mset [layer_y, layer_x] \<and>
     [layer_x, layer_y] \<noteq> [layer_y, layer_x] \<and>
     returned_status [layer_x, layer_y] [layer_y, layer_x] ''Inputs'' initial_report = Some 1 \<and>
     reported_flag [layer_x, layer_y] [layer_y, layer_x] ''Inputs'' initial_report = Some False \<and>
     a_minus_b [layer_x, layer_y] [layer_y, layer_x] = [] \<and>
     b_minus_a [layer_x, layer_y] [layer_y, layer_x] = [] \<and>
     reported_lists [layer_x, layer_y] [layer_y, layer_x] ''Inputs'' initial_report = Some ([], [])"
proof -
  have m: "mset [layer_x, layer_y] = mset [layer_y, layer_x]" by simp
  have ne: "[layer_x, layer_y] \<noteq> [layer_y, layer_x]" using layer_x_neq_y by simp
  show ?thesis
    using initialised_initial_report m ne
      diff_models_reordered [OF initialised_initial_report m ne, of "''Inputs''"]
    by simp
qed

text \<open>
  The compatibility flag is not equivalent to the emptiness of the two difference lists:
  for \<open>[x, y]\<close> against \<open>[y, x]\<close> the flag is false and both lists are empty.
\<close>

theorem diff_models_compatible_iff_counterexample:
  "\<not> (reported_flag [layer_x, layer_y] [layer_y, layer_x] ''Inputs'' initial_report = Some True \<longleftrightarrow>
        a_minus_b [layer_x, layer_y] [layer_y, layer_x] = [] \<and>
        b_minus_a [layer_x, layer_y] [layer_y, layer_x] = [])"
proof -
  have ne: "[layer_x, layer_y] \<noteq> [layer_y, layer_x]" using layer_x_neq_y by simp
  have f: "reported_flag [layer_x, layer_y] [layer_y, layer_x] ''Inputs'' initial_report = Some False"
    using reported_flag_eq [OF initialised_initial_report, of "[layer_x, layer_y]" "[layer_y, layer_x]" "''Inputs''"] ne
    by simp
  have a: "a_minus_b [layer_x, layer_y] [layer_y, layer_x] = []"
    unfolding a_minus_b_empty_iff by simp
  have b: "b_minus_a [layer_x, layer_y] [layer_y, layer_x] = []"
    unfolding b_minus_a_empty_iff by simp
  show ?thesis unfolding f a b by simp
qed

text \<open>
  Claim C2, as amended. A group recorded as compatible has both one-sided difference
  lists empty. The converse holds for sequences whose descriptors carry their own
  position as \<^verbatim>\<open>id\<close>, which is how \<^verbatim>\<open>parse_layers\<close> numbers them; for such sequences
  the flag is true exactly when both lists are empty.
\<close>

theorem diff_models_compatible_amended:
  "initialised REPORT \<Longrightarrow>
     (reported_flag a b grp REPORT = Some True \<longrightarrow> a_minus_b a b = [] \<and> b_minus_a a b = []) \<and>
     (indexed a \<and> indexed b \<longrightarrow>
        (reported_flag a b grp REPORT = Some True \<longleftrightarrow> a_minus_b a b = [] \<and> b_minus_a a b = []))"
proof -
  assume i: "initialised REPORT"
  have f: "reported_flag a b grp REPORT = Some True \<longleftrightarrow> a = b"
    using reported_flag_eq [OF i, of a b grp] by simp
  have e: "a_minus_b a b = [] \<and> b_minus_a a b = [] \<longleftrightarrow> set a = set b"
    unfolding a_minus_b_empty_iff b_minus_a_empty_iff by (rule iffI) (rule equalityI, simp_all)
  have 1: "a = b \<Longrightarrow> set a = set b" by simp
  have 2: "indexed a \<and> indexed b \<Longrightarrow> set a = set b \<Longrightarrow> a = b"
    using indexed_set_eq [of a b] by simp
  have c1: "reported_flag a b grp REPORT = Some True \<longrightarrow> a_minus_b a b = [] \<and> b_minus_a a b = []"
    unfolding f e using 1 by (rule impI)
  have c2: "indexed a \<and> indexed b \<longrightarrow>
        (reported_flag a b grp REPORT = Some True \<longleftrightarrow> a_minus_b a b = [] \<and> b_minus_a a b = [])"
    unfolding f e
  proof (rule impI)
    assume x: "indexed a \<and> indexed b"
    show "a = b \<longleftrightarrow> set a = set b" using 1 2 [OF x] by (rule iffI)
  qed
  from c1 c2 show ?thesis by (rule conjI)
qed

text \<open>The amended equivalence at the sequence \<open>[x, y]\<close> against itself.\<close>

theorem diff_models_compatible_amended_witness:
  "initialised initial_report \<and> indexed [layer_x, layer_y] \<and>
   reported_flag [layer_x, layer_y] [layer_x, layer_y] ''Outputs'' initial_report = Some True \<and>
   a_minus_b [layer_x, layer_y] [layer_x, layer_y] = [] \<and>
   b_minus_a [layer_x, layer_y] [layer_x, layer_y] = []"
proof -
  have "map id_d [layer_x, layer_y] = [0, 1]"
    by (simp add: layer_x_def layer_y_def)
  moreover have "[0..<length [layer_x, layer_y]] = [0, 1]"
    by simp
  ultimately have x: "indexed [layer_x, layer_y]"
    unfolding indexed_def by (rule trans_sym)
  have f: "reported_flag [layer_x, layer_y] [layer_x, layer_y] ''Outputs'' initial_report = Some True"
    using reported_flag_eq [OF initialised_initial_report, of "[layer_x, layer_y]" "[layer_x, layer_y]" "''Outputs''"]
    by simp
  have "a_minus_b [layer_x, layer_y] [layer_x, layer_y] = [] \<and>
        b_minus_a [layer_x, layer_y] [layer_x, layer_y] = []"
    using diff_models_compatible_amended [OF initialised_initial_report,
        of "[layer_x, layer_y]" "[layer_x, layer_y]" "''Outputs''"] x f
    by blast
  with initialised_initial_report x f show ?thesis by blast
qed

subsection \<open>What parse_layers builds\<close>

text \<open>
  The sequences \<^verbatim>\<open>main\<close> hands to \<open>diff_models\<close> are numbered by position, and two of
  them are equal exactly when the layers they come from are.
\<close>

lemma parse_layers_loop_Some:
  "container grp = Some xs \<Longrightarrow>
     parse_layers_loop container layers grp idx = Inr (container(grp \<mapsto> xs @ numbered idx layers))"
proof (induction layers arbitrary: container xs idx)
  case Nil
  then show ?case by (simp add: map_upd_triv)
next
  case (Cons layer layers)
  let ?d = "\<lparr>id_d = idx, name_d = name layer, shape_d = shape layer\<rparr>"
  let ?c = "container(grp \<mapsto> xs @ [?d])"
  have "?c grp = Some (xs @ [?d])" by simp
  then have ih: "parse_layers_loop ?c layers grp (idx + 1) =
      Inr (?c(grp \<mapsto> (xs @ [?d]) @ numbered (idx + 1) layers))"
    by (rule Cons.IH)
  have step: "parse_layers_loop container (layer # layers) grp idx =
      parse_layers_loop ?c layers grp (idx + 1)"
    using Cons.prems by simp
  have upd: "?c(grp \<mapsto> (xs @ [?d]) @ numbered (idx + 1) layers) =
      container(grp \<mapsto> xs @ numbered idx (layer # layers))"
    by simp
  show ?case unfolding step ih upd ..
qed

lemma get_in_out_layers_numbered:
  "\<exists>c. get_in_out_layers input_layers output_layers = Inr c \<and>
       c ''inputs'' = Some (numbered 0 input_layers) \<and>
       c ''outputs'' = Some (numbered 0 output_layers)"
proof -
  let ?c0 = "[''inputs'' \<mapsto> [], ''outputs'' \<mapsto> []] :: container"
  have i: "?c0 ''inputs'' = Some []" by simp
  let ?c1 = "?c0(''inputs'' \<mapsto> [] @ numbered 0 input_layers)"
  have o1: "?c1 ''outputs'' = Some []" by simp
  have p1: "parse_layers ?c0 input_layers ''inputs'' = Inr ?c1"
    unfolding parse_layers_def using i by (rule parse_layers_loop_Some)
  have p2: "parse_layers ?c1 output_layers ''outputs'' =
      Inr (?c1(''outputs'' \<mapsto> [] @ numbered 0 output_layers))"
    unfolding parse_layers_def using o1 by (rule parse_layers_loop_Some)
  show ?thesis
    unfolding get_in_out_layers_def Let_def p1 sum.case p2 by simp
qed

lemma map_id_d_numbered: "map id_d (numbered idx layers) = [idx..<idx + length layers]"
proof (induction layers arbitrary: idx)
  case Nil
  show ?case by simp
next
  case (Cons layer layers)
  have "[idx..<idx + length (layer # layers)] = idx # [Suc idx..<Suc idx + length layers]"
    using upt_conv_Cons [of idx "idx + length (layer # layers)"] by simp
  with Cons [of "idx + 1"] show ?case by simp
qed

lemma indexed_numbered: "indexed (numbered 0 layers)"
proof -
  have "length (numbered 0 layers) = length layers"
    using arg_cong [OF map_id_d_numbered [of 0 layers], of length] by simp
  then show ?thesis by (simp add: indexed_def map_id_d_numbered)
qed

lemma map_name_d_numbered: "map name_d (numbered idx layers) = map name layers"
  by (induction layers arbitrary: idx) simp_all

lemma map_shape_d_numbered: "map shape_d (numbered idx layers) = map shape layers"
  by (induction layers arbitrary: idx) simp_all

lemma node_args_eq:
  fixes xs ys :: "node_arg list"
  shows "map name xs = map name ys \<Longrightarrow> map shape xs = map shape ys \<Longrightarrow> xs = ys"
proof (induction xs arbitrary: ys)
  case Nil
  then show ?case by simp
next
  case (Cons x xs)
  then obtain y ys' where ys: "ys = y # ys'" by (cases ys) simp_all
  with Cons.prems have "name x = name y" "shape x = shape y"
    "map name xs = map name ys'" "map shape xs = map shape ys'" by simp_all
  with Cons.IH [of ys'] ys show ?case by simp
qed

lemma numbered_eq_iff: "numbered 0 xs = numbered 0 ys \<longleftrightarrow> xs = ys"
proof
  assume e: "numbered 0 xs = numbered 0 ys"
  have "map name xs = map name ys"
    using arg_cong [OF e, of "map name_d"] by (simp only: map_name_d_numbered)
  moreover have "map shape xs = map shape ys"
    using arg_cong [OF e, of "map shape_d"] by (simp only: map_shape_d_numbered)
  ultimately show "xs = ys" by (rule node_args_eq)
next
  assume "xs = ys"
  then show "numbered 0 xs = numbered 0 ys" by simp
qed

subsection \<open>The exit status of main\<close>

lemma diff_models_total:
  assumes "initialised REPORT"
  shows "\<exists>R. diff_models a b grp REPORT = Inr (if a = b then 0 else 1, R) \<and> initialised R"
proof -
  from assms obtain m where m: "models REPORT = Some m"
    by (cases "models REPORT") (simp_all add: initialised_def)
  from assms m obtain c where c: "compatability m = Some c"
    by (cases "compatability m") (simp_all add: initialised_def)
  show ?thesis using m c
    by (simp add: diff_models_def set_compatability_def initialised_def)
qed

lemma run_inputs_skipped: "run_inputs ''OUTPUTS'' al bl REPORT = Inr (None, REPORT)"
  by (simp add: run_inputs_def)

lemma run_outputs_skipped: "run_outputs ''INPUTS'' al bl REPORT = Inr (None, REPORT)"
  by (simp add: run_outputs_def)

lemma finish_unbound:
  "input_status = None \<or> output_status = None \<Longrightarrow> isl (finish uri input_status output_status REPORT)"
  by (cases input_status; cases output_status) (simp_all add: finish_def)

lemma compare_single_group:
  assumes "arg_layer_type args \<noteq> Choice_both"
    and "compare w args ma mb = Inr ((input_status, output_status), R)"
  shows "input_status = None \<or> output_status = None"
proof (cases "arg_layer_type args")
  case Choice_inputs
  then have "output_status = None" using assms(2)
    by (simp add: compare_def Let_def run_outputs_skipped split: sum.splits prod.splits)
  then show ?thesis ..
next
  case Choice_outputs
  then have "input_status = None" using assms(2)
    by (simp add: compare_def Let_def run_inputs_skipped split: sum.splits prod.splits)
  then show ?thesis ..
next
  case Choice_both
  with assms(1) show ?thesis by simp
qed

lemma main_single_group_raises:
  assumes "arg_layer_type args \<noteq> Choice_both"
  shows "isl (main w args) \<and> process_exit_status (main w args) = 1"
proof -
  have "isl (main w args)"
  proof (cases "is_file w (arg_model_a args) \<and> is_file w (arg_model_b args)")
    case False
    then show ?thesis by (auto simp: main_def)
  next
    case True
    show ?thesis
    proof (cases "compare w args (arg_model_a args) (arg_model_b args)")
      case (Inl e)
      with True show ?thesis by (simp add: main_def)
    next
      case (Inr r)
      obtain i o1 R where r: "r = ((i, o1), R)" by (metis prod.exhaust)
      from compare_single_group [OF assms Inr [unfolded r]]
      have "i = None \<or> o1 = None" .
      from finish_unbound [OF this] show ?thesis using True Inr r
        by (simp add: main_def Let_def)
    qed
  qed
  then show ?thesis by (cases "main w args") simp_all
qed

text \<open>
  With both groups requested, two existing model files that load and an output path, the
  exit status is 0 exactly when the inputs and the outputs of the two models are the same.
\<close>

lemma layers_of_numbered:
  assumes "session w p = Inr (ins, outs)"
  shows "\<exists>c. layers_of w p = Inr c \<and> c ''inputs'' = Some (numbered 0 ins) \<and>
           c ''outputs'' = Some (numbered 0 outs)"
  using get_in_out_layers_numbered [of ins outs] assms by (simp add: layers_of_def)

lemma main_both_exit_status:
  assumes both: "arg_layer_type args = Choice_both"
    and fa: "is_file w (arg_model_a args)" and fb: "is_file w (arg_model_b args)"
    and sa: "session w (arg_model_a args) = Inr (ia, oa)"
    and sb: "session w (arg_model_b args) = Inr (ib, ob)"
    and out: "arg_output_uri args = Some uri"
  shows "process_exit_status (main w args) = (if ia = ib \<and> oa = ob then 0 else 1)"
proof -
  obtain ca where ca: "layers_of w (arg_model_a args) = Inr ca"
      "ca ''inputs'' = Some (numbered 0 ia)" "ca ''outputs'' = Some (numbered 0 oa)"
    using layers_of_numbered [OF sa] by blast
  obtain cb where cb: "layers_of w (arg_model_b args) = Inr cb"
      "cb ''inputs'' = Some (numbered 0 ib)" "cb ''outputs'' = Some (numbered 0 ob)"
    using layers_of_numbered [OF sb] by blast
  define R0 where "R0 = empty_report\<lparr>models := Some \<lparr>model_a = Some (abspath w (arg_model_a args)),
       model_b = Some (abspath w (arg_model_b args)), compatability = Some Map.empty\<rparr>\<rparr>"
  define si :: nat where "si = (if ia = ib then 0 else 1)"
  define so :: nat where "so = (if oa = ob then 0 else 1)"
  have "initialised R0" by (simp add: R0_def initialised_def)
  then obtain R1 where R1: "diff_models (numbered 0 ia) (numbered 0 ib) ''Inputs'' R0 = Inr (si, R1)"
      "initialised R1"
    using diff_models_total [of R0 "numbered 0 ia" "numbered 0 ib" "''Inputs''"]
    unfolding si_def numbered_eq_iff by blast
  obtain R2 where R2: "diff_models (numbered 0 oa) (numbered 0 ob) ''Outputs'' R1 = Inr (so, R2)"
    using diff_models_total [OF R1(2), of "numbered 0 oa" "numbered 0 ob" "''Outputs''"]
    unfolding so_def numbered_eq_iff by blast
  have ri: "run_inputs ''BOTH'' ca cb R0 = Inr (Some si, R1)"
    using ca(2) cb(2) R1(1) by (simp add: run_inputs_def getitem_def)
  have ro: "run_outputs ''BOTH'' ca cb R1 = Inr (Some so, R2)"
    using ca(3) cb(3) R2 by (simp add: run_outputs_def getitem_def)
  have cmp: "compare w args (arg_model_a args) (arg_model_b args) = Inr ((Some si, Some so), R2)"
    using ca(1) cb(1) ri ro both by (simp add: compare_def R0_def)
  have "main w args = Inr (if si + so = 0 then 0 else 1, R2\<lparr>exit_status := Some (if si + so = 0 then 0 else 1)\<rparr>)"
    using cmp fa fb out
    by (simp add: main_def finish_def EXIT_STATUS_SUCCESS_def EXIT_STATUS_ERROR_def Let_def)
  then show ?thesis by (simp add: si_def so_def)
qed

lemma layers_of_same_models:
  "\<exists>c. layers_of same_models p = Inr c \<and> c ''inputs'' = Some [layer_x] \<and>
     c ''outputs'' = Some [\<lparr>id_d = 0, name_d = ''y'', shape_d = [Fixed 1]\<rparr>]"
  by (simp add: layers_of_def same_models_def get_in_out_layers_def parse_layers_def layer_x_def)

text \<open>
  Claim C1. The exit status is 0 exactly when every requested group is compatible, also
  when one group alone is requested. With \<^verbatim>\<open>--layer_type inputs\<close> and two models whose
  inputs are the same, \<^verbatim>\<open>main\<close> binds \<^verbatim>\<open>input_status\<close> and never \<^verbatim>\<open>output_status\<close>:
  the sum at line 192 raises \<^verbatim>\<open>UnboundLocalError\<close> and the process ends with status 1.
\<close>

theorem main_inputs_only_raises:
  "main same_models (args_of Choice_inputs) = Inl (UnboundLocalError ''output_status'') \<and>
   process_exit_status (main same_models (args_of Choice_inputs)) = 1"
proof -
  obtain c where c: "layers_of same_models ''a.onnx'' = Inr c" "c ''inputs'' = Some [layer_x]"
    using layers_of_same_models [of "''a.onnx''"] by blast
  obtain c' where c': "layers_of same_models ''b.onnx'' = Inr c'" "c' ''inputs'' = Some [layer_x]"
    using layers_of_same_models [of "''b.onnx''"] by blast
  define R0 where "R0 = empty_report\<lparr>models := Some \<lparr>model_a = Some (abspath same_models ''a.onnx''),
       model_b = Some (abspath same_models ''b.onnx''), compatability = Some Map.empty\<rparr>\<rparr>"
  have "initialised R0" by (simp add: R0_def initialised_def)
  then obtain R1 where R1: "diff_models [layer_x] [layer_x] ''Inputs'' R0 = Inr (0, R1)"
    using diff_models_total [of R0 "[layer_x]" "[layer_x]" "''Inputs''"] by auto
  have ri: "run_inputs ''INPUTS'' c c' R0 = Inr (Some 0, R1)"
    using c(2) c'(2) R1 by (simp add: run_inputs_def getitem_def)
  have cmp: "compare same_models (args_of Choice_inputs) ''a.onnx'' ''b.onnx'' = Inr ((Some 0, None), R1)"
    using c(1) c'(1) ri by (simp add: compare_def args_of_def R0_def run_outputs_skipped)
  have m: "main same_models (args_of Choice_inputs) = Inl (UnboundLocalError ''output_status'')"
    using cmp by (simp add: main_def args_of_def same_models_def finish_def)
  then show ?thesis by simp
qed

section \<open>Properties of the metadata validator and of the write\<close>

subsection \<open>The licence check\<close>

lemma find_from_range: "find_from s sub k = - 1 \<or> int k \<le> find_from s sub k"
proof (induction s arbitrary: k)
  case Nil
  show ?case by simp
next
  case (Cons c cs)
  show ?case using Cons [of "k + 1"] by auto
qed

lemma find_from_occurs: "find_from s sub k \<noteq> - 1 \<longleftrightarrow> occurs_in sub s"
  by (induction s arbitrary: k) simp_all

lemma str_find_pos: "0 < str_find s sub \<longleftrightarrow> occurs_in sub s \<and> \<not> startswith s sub"
proof (cases s)
  case Nil
  then show ?thesis by (auto simp: str_find_def startswith_def)
next
  case (Cons c cs)
  show ?thesis
  proof (cases "startswith (c # cs) sub")
    case True
    with Cons show ?thesis by (simp add: str_find_def)
  next
    case False
    have "0 < find_from cs sub 1 \<longleftrightarrow> find_from cs sub 1 \<noteq> - 1"
      using find_from_range [of cs sub 1] by auto
    with False Cons show ?thesis by (simp add: str_find_def find_from_occurs)
  qed
qed

lemma startswith_occurs_at: "startswith s sub \<longleftrightarrow> occurs_at s sub 0"
proof
  assume "startswith s sub"
  then have t: "take (length sub) s = sub" by (simp add: startswith_def)
  then have "length (take (length sub) s) = length sub" by simp
  then have "length sub \<le> length s" by simp
  with t show "occurs_at s sub 0" by (simp add: occurs_at_def)
next
  assume "occurs_at s sub 0"
  then show "startswith s sub" by (simp add: occurs_at_def startswith_def)
qed

lemma occurs_at_Cons: "occurs_at (c # cs) sub (Suc i) \<longleftrightarrow> occurs_at cs sub i"
  by (simp add: occurs_at_def)

lemma occurs_in_occurs_at: "occurs_in sub s \<longleftrightarrow> (\<exists>i. occurs_at s sub i)"
proof (induction s)
  case Nil
  show ?case by (auto simp: occurs_at_def)
next
  case (Cons c cs)
  show ?case
  proof
    assume "occurs_in sub (c # cs)"
    then consider "startswith (c # cs) sub" | "occurs_in sub cs" by auto
    then show "\<exists>i. occurs_at (c # cs) sub i"
    proof cases
      case 1
      then show ?thesis using startswith_occurs_at by blast
    next
      case 2
      with Cons obtain i where "occurs_at cs sub i" by blast
      then have "occurs_at (c # cs) sub (Suc i)" by (simp add: occurs_at_Cons)
      then show ?thesis ..
    qed
  next
    assume "\<exists>i. occurs_at (c # cs) sub i"
    then obtain i where i: "occurs_at (c # cs) sub i" ..
    show "occurs_in sub (c # cs)"
    proof (cases i)
      case 0
      with i show ?thesis using startswith_occurs_at by simp
    next
      case (Suc j)
      with i have "occurs_at cs sub j" by (simp add: occurs_at_Cons)
      with Cons show ?thesis by auto
    qed
  qed
qed

lemma license_loop_rejects:
  "license_loop lic npls = Inl (SystemExit (Non_commercial_license lic)) \<longleftrightarrow>
     (\<exists>npl\<in>set npls. 0 < str_find lic npl)"
  by (induction npls) simp_all

lemma license_loop_passes:
  "license_loop lic npls = Inr () \<longleftrightarrow> \<not> (\<exists>npl\<in>set npls. 0 < str_find lic npl)"
  by (induction npls) simp_all

lemma first_occurrence_later:
  "0 < str_find lic npl \<longleftrightarrow> (\<exists>i. occurs_at lic npl i) \<and> \<not> occurs_at lic npl 0"
  by (simp add: str_find_pos occurs_in_occurs_at startswith_occurs_at)

text \<open>
  A licence that begins with a token and holds it again later is not rejected, although
  the token stands at a position greater than zero: \<^verbatim>\<open>find\<close> gives the lowest position only.
  In \<^verbatim>\<open>GPL GPL\<close> the token \<^verbatim>\<open>GPL\<close> stands at 0 and at 4.
\<close>

theorem license_gate_any_position_counterexample:
  "\<not> (metadata_validator (licensed ''GPL GPL'') =
         Inl (SystemExit (Non_commercial_license (upper ''GPL GPL''))) \<longleftrightarrow>
       token_after_start (upper ''GPL GPL''))"
proof -
  have v: "metadata_validator (licensed ''GPL GPL'') = Inr ()" by code_simp
  have t: "token_after_start (upper ''GPL GPL'')" by code_simp
  show ?thesis unfolding v using t by simp
qed

text \<open>
  Claim C6, as amended. For a record that passes the checks before the licence check, the
  validator rejects it with the licence error exactly when some token of the deny-list
  occurs in the upper-cased \<^verbatim>\<open>model_license\<close> and does not occur at position 0, that is,
  when the lowest position at which the token occurs is greater than zero; otherwise the
  validator accepts the record.
\<close>

theorem license_gate_first_occurrence:
  assumes "check_keys md = Inr ()" and "check_items md md = Inr ()"
    and "check_classes md = Inr ()" and "map_of md ''model_license'' = Some (JStr s)"
  shows "(metadata_validator md = Inl (SystemExit (Non_commercial_license (upper s))) \<longleftrightarrow>
            (\<exists>npl\<in>set NON_PERMISIVE_LICENSES.
               (\<exists>i. occurs_at (upper s) npl i) \<and> \<not> occurs_at (upper s) npl 0)) \<and>
         (metadata_validator md = Inr () \<longleftrightarrow>
            \<not> (\<exists>npl\<in>set NON_PERMISIVE_LICENSES.
                 (\<exists>i. occurs_at (upper s) npl i) \<and> \<not> occurs_at (upper s) npl 0))"
proof -
  have v: "metadata_validator md = license_loop (upper s) NON_PERMISIVE_LICENSES"
    using assms by (simp add: metadata_validator_def check_license_def)
  show ?thesis
    unfolding v license_loop_rejects license_loop_passes first_occurrence_later by simp
qed

text \<open>\<^verbatim>\<open>MIT/GPL\<close> is rejected (\<^verbatim>\<open>GPL\<close> first at 4) and \<^verbatim>\<open>GPL v3\<close> passes (\<^verbatim>\<open>GPL\<close> first at 0).\<close>

theorem license_gate_first_occurrence_witness:
  "check_keys (licensed ''MIT/GPL'') = Inr () \<and>
   check_items (licensed ''MIT/GPL'') (licensed ''MIT/GPL'') = Inr () \<and>
   check_classes (licensed ''MIT/GPL'') = Inr () \<and>
   map_of (licensed ''MIT/GPL'') ''model_license'' = Some (JStr ''MIT/GPL'') \<and>
   metadata_validator (licensed ''MIT/GPL'') =
     Inl (SystemExit (Non_commercial_license (upper ''MIT/GPL''))) \<and>
   (\<exists>npl\<in>set NON_PERMISIVE_LICENSES.
      (\<exists>i. occurs_at (upper ''MIT/GPL'') npl i) \<and> \<not> occurs_at (upper ''MIT/GPL'') npl 0) \<and>
   check_keys (licensed ''GPL v3'') = Inr () \<and>
   check_items (licensed ''GPL v3'') (licensed ''GPL v3'') = Inr () \<and>
   check_classes (licensed ''GPL v3'') = Inr () \<and>
   map_of (licensed ''GPL v3'') ''model_license'' = Some (JStr ''GPL v3'') \<and>
   metadata_validator (licensed ''GPL v3'') = Inr () \<and>
   \<not> (\<exists>npl\<in>set NON_PERMISIVE_LICENSES.
      (\<exists>i. occurs_at (upper ''GPL v3'') npl i) \<and> \<not> occurs_at (upper ''GPL v3'') npl 0)"
proof -
  have k1: "check_keys (licensed ''MIT/GPL'') = Inr ()" by code_simp
  have i1: "check_items (licensed ''MIT/GPL'') (licensed ''MIT/GPL'') = Inr ()" by code_simp
  have c1: "check_classes (licensed ''MIT/GPL'') = Inr ()" by code_simp
  have l1: "map_of (licensed ''MIT/GPL'') ''model_license'' = Some (JStr ''MIT/GPL'')" by code_simp
  have v1: "metadata_validator (licensed ''MIT/GPL'') =
     Inl (SystemExit (Non_commercial_license (upper ''MIT/GPL'')))" by code_simp
  have k2: "check_keys (licensed ''GPL v3'') = Inr ()" by code_simp
  have i2: "check_items (licensed ''GPL v3'') (licensed ''GPL v3'') = Inr ()" by code_simp
  have c2: "check_classes (licensed ''GPL v3'') = Inr ()" by code_simp
  have l2: "map_of (licensed ''GPL v3'') ''model_license'' = Some (JStr ''GPL v3'')" by code_simp
  have v2: "metadata_validator (licensed ''GPL v3'') = Inr ()" by code_simp
  note g1 = license_gate_first_occurrence [OF k1 i1 c1 l1]
  note g2 = license_gate_first_occurrence [OF k2 i2 c2 l2]
  have e1: "\<exists>npl\<in>set NON_PERMISIVE_LICENSES.
      (\<exists>i. occurs_at (upper ''MIT/GPL'') npl i) \<and> \<not> occurs_at (upper ''MIT/GPL'') npl 0"
    using g1 v1 by blast
  have e2: "\<not> (\<exists>npl\<in>set NON_PERMISIVE_LICENSES.
      (\<exists>i. occurs_at (upper ''GPL v3'') npl i) \<and> \<not> occurs_at (upper ''GPL v3'') npl 0)"
    using g2 v2 by blast
  from k1 i1 c1 l1 v1 e1 k2 i2 c2 l2 v2 e2 show ?thesis by blast
qed

subsection \<open>The required keys\<close>

text \<open>
  Claim C7. A record that lacks a required key fails with the missing-key error, whatever
  its values are: no emptiness, type or template check decides the result.
\<close>

theorem missing_key_first:
  "\<not> set (map fst METADATA) \<subseteq> set (map fst md) \<Longrightarrow>
     metadata_validator md =
       Inl (SystemExit (Missing_configuration_keys (set (map fst METADATA) - set (map fst md))))"
  by (simp add: metadata_validator_def check_keys_def)

text \<open>
  The record without \<^verbatim>\<open>model_date\<close>, whose \<^verbatim>\<open>number_of_classes\<close> is a string: the type
  check would reject it, and the error is the missing key.
\<close>

theorem missing_key_first_witness:
  "\<not> set (map fst METADATA) \<subseteq> set (map fst undated) \<and>
   wrong_type ''number_of_classes'' (JStr ''two'') = Some T_int \<and>
   map_of undated ''number_of_classes'' = Some (JStr ''two'') \<and>
   metadata_validator undated =
     Inl (SystemExit (Missing_configuration_keys (set (map fst METADATA) - set (map fst undated)))) \<and>
   set (map fst METADATA) - set (map fst undated) = {''model_date''}"
proof -
  have h: "\<not> set (map fst METADATA) \<subseteq> set (map fst undated)" by code_simp
  have w: "wrong_type ''number_of_classes'' (JStr ''two'') = Some T_int" by code_simp
  have m: "map_of undated ''number_of_classes'' = Some (JStr ''two'')" by code_simp
  have d: "set (map fst METADATA) - set (map fst undated) = {''model_date''}" by code_simp
  from h w m d missing_key_first [OF h] show ?thesis by blast
qed

subsection \<open>Booleans and additional keys\<close>

text \<open>
  Claim C4. A boolean given for a key declared \<^verbatim>\<open>int\<close> is to be rejected by the type
  check. \<^verbatim>\<open>isinstance(True, int)\<close> holds, so the check lets \<^verbatim>\<open>true\<close> pass as
  \<^verbatim>\<open>number_of_classes\<close>, it then equals the length of a one-element \<^verbatim>\<open>class_names\<close>, and
  the validator accepts the record.
\<close>

theorem boolean_accepted_as_integer:
  "wrong_type ''number_of_classes'' (JBool True) = None \<and>
   wrong_type ''model_version'' (JBool False) = None \<and>
   metadata_validator (record_with (JBool True) (JList [JStr ''person'']) (JStr ''MIT'')) = Inr ()"
  by code_simp

text \<open>
  Claim C5. A record with all required keys and an additional key is not to be rejected
  for the additional key. When the additional value is a string, line 125 reads
  \<^verbatim>\<open>METADATA[key]\<close> without the guard that line 121 has, and the validator ends in
  \<^verbatim>\<open>KeyError\<close>.
\<close>

theorem extra_string_key_raises:
  "check_keys (licensed ''MIT'' @ [(''comment'', JStr ''reviewed'')]) = Inr () \<and>
   metadata_validator (licensed ''MIT'' @ [(''comment'', JStr ''reviewed'')]) =
     Inl (KeyError ''comment'')"
  by code_simp

text \<open>An additional key whose value is not a string passes.\<close>

lemma extra_integer_key_passes:
  "metadata_validator (licensed ''MIT'' @ [(''revision'', JInt 7)]) = Inr ()"
  by code_simp

subsection \<open>_add_metadata\<close>

lemma add_entries_eq:
  "add_entries dumps model items =
     model\<lparr>metadata_props := metadata_props model @ map (\<lambda>(k, v). (k, dumps v)) items\<rparr>"
  by (induction dumps model items rule: add_entries.induct) simp_all

lemma add_metadata_eq:
  "add_metadata dumps model d = model\<lparr>metadata_props := map (\<lambda>(k, v). (k, dumps v)) d\<rparr>"
  by (simp add: add_metadata_def add_entries_eq)

text \<open>
  Claim C9. After \<^verbatim>\<open>_add_metadata\<close> the entries of the model are one entry for each item
  of the record, in its order, with the key and the encoded value; the rest of the model
  is unchanged; the result does not depend on the entries the model held before; and
  adding the same record a second time changes nothing.
\<close>

theorem add_metadata_replaces:
  "metadata_props (add_metadata dumps model d) = map (\<lambda>(k, v). (k, dumps v)) d \<and>
   map fst (metadata_props (add_metadata dumps model d)) = map fst d \<and>
   graph (add_metadata dumps model d) = graph model \<and>
   add_metadata dumps (model\<lparr>metadata_props := old\<rparr>) d = add_metadata dumps model d \<and>
   add_metadata dumps (add_metadata dumps model d) d = add_metadata dumps model d"
  by (simp add: add_metadata_eq split_def comp_def)

subsection \<open>The count of entries after the write\<close>

lemma distinct_meta_keys: "distinct (map fst METADATA)"
  by (simp add: METADATA_def)

lemma length_meta_keys: "length (map fst METADATA) = 11"
  by (simp add: METADATA_def)

lemma validated_keys:
  assumes "metadata_validator md = Inr ()"
  shows "set (map fst METADATA) \<subseteq> set (map fst md)"
proof (rule ccontr)
  assume "\<not> set (map fst METADATA) \<subseteq> set (map fst md)"
  then have "isl (metadata_validator md)"
    by (simp add: metadata_validator_def check_keys_def)
  with assms show False by simp
qed

lemma validated_length:
  assumes "metadata_validator md = Inr ()"
  shows "11 \<le> length md"
proof -
  have "card (set (map fst METADATA)) = 11"
    using distinct_card [OF distinct_meta_keys] length_meta_keys by simp
  moreover have "card (set (map fst METADATA)) \<le> card (set (map fst md))"
    using validated_keys [OF assms] by (simp add: card_mono)
  moreover have "card (set (map fst md)) \<le> length (map fst md)"
    by (rule card_length)
  ultimately show ?thesis by simp
qed

lemma length_add_metadata: "length (metadata_props (add_metadata dumps model md)) = length md"
  by (simp add: add_metadata_eq)

lemma commit_validated:
  assumes "metadata_validator md = Inr ()"
  shows "commit E model_uri output_uri md \<noteq> Inl (SystemExit (Failed_to_write_metadata u))"
proof -
  have l: "11 \<le> length md" using assms by (rule validated_length)
  have ne: "metadata_props (add_metadata (json_dumps E) m md) \<noteq> []" for m
    using l length_add_metadata [of "json_dumps E" m md] by auto
  show ?thesis
  proof (cases "onnx_load E model_uri")
    case (Inl msg)
    then show ?thesis by (simp add: commit_def)
  next
    case (Inr model0)
    show ?thesis
    proof (cases "onnx_save E (add_metadata (json_dumps E) model0 md) output_uri")
      case None
      with Inr ne [of model0] show ?thesis by (simp add: commit_def Let_def)
    next
      case (Some msg)
      with Inr ne [of model0] show ?thesis by (simp add: commit_def Let_def)
    qed
  qed
qed

text \<open>
  Claim C10. For a record the validator accepts, the number of entries after
  \<^verbatim>\<open>_add_metadata\<close> is the number of items of the record, which is at least 11, and the
  write does not end in the error \<^verbatim>\<open>Failed to write metadata\<close>.
\<close>

theorem validated_record_is_written:
  assumes "metadata_validator md = Inr ()"
  shows "length (metadata_props (add_metadata (json_dumps E) model md)) = length md \<and>
         11 \<le> length md \<and>
         commit E model_uri output_uri md \<noteq> Inl (SystemExit (Failed_to_write_metadata u))"
  using validated_length [OF assms] commit_validated [OF assms] length_add_metadata
  by simp

text \<open>The record with licence \<^verbatim>\<open>MIT\<close>, written to the model \<^verbatim>\<open>net.onnx\<close>.\<close>

theorem validated_record_is_written_witness:
  "metadata_validator (licensed ''MIT'') = Inr () \<and>
   length (metadata_props (add_metadata (json_dumps files) a_model (licensed ''MIT''))) = 11 \<and>
   commit files ''net.onnx'' ''net.onnx'' (licensed ''MIT'') \<noteq>
     Inl (SystemExit (Failed_to_write_metadata ''net.onnx''))"
proof -
  have v: "metadata_validator (licensed ''MIT'') = Inr ()" by code_simp
  have n: "length (licensed ''MIT'') = 11" by (simp add: licensed_def record_with_def)
  from v n validated_record_is_written [OF v, of files a_model "''net.onnx''" "''net.onnx''" "''net.onnx''"]
  show ?thesis by simp
qed

text \<open>No run of \<^verbatim>\<open>_write_model_metadata\<close> ends in that error, and the run on \<open>files\<close> succeeds.\<close>

lemma not_in_error: "not_in k v = Inl e \<Longrightarrow> \<not> write_failure e"
  by (cases v) (auto simp: write_failure_def)

lemma subscript_error: "subscript v k = Inl e \<Longrightarrow> \<not> write_failure e"
  by (cases v) (auto simp: write_failure_def split: option.splits)

lemma read_model_uri_error: "read_model_uri E data = Inl e \<Longrightarrow> \<not> write_failure e"
  by (auto simp: read_model_uri_def write_failure_def split: sum.splits if_splits json.splits
      dest: not_in_error subscript_error)

lemma read_metadata_error: "read_metadata data = Inl e \<Longrightarrow> \<not> write_failure e"
  by (auto simp: read_metadata_def write_failure_def split: sum.splits if_splits json.splits
      dest: not_in_error subscript_error)

lemma check_items_error: "check_items md items = Inl e \<Longrightarrow> \<not> write_failure e"
  by (induction md items rule: check_items.induct)
     (auto simp: write_failure_def split: if_splits option.splits json.splits)

lemma license_loop_error: "license_loop lic npls = Inl e \<Longrightarrow> \<not> write_failure e"
  by (induction npls) (auto simp: write_failure_def split: if_splits)

lemma py_len_error: "py_len v = Inl e \<Longrightarrow> \<not> write_failure e"
  by (cases v) (auto simp: write_failure_def)

lemma metadata_validator_error: "metadata_validator md = Inl e \<Longrightarrow> \<not> write_failure e"
  by (auto simp: metadata_validator_def check_keys_def check_classes_def check_license_def
      write_failure_def Let_def split: sum.splits if_splits option.splits json.splits
      dest: check_items_error license_loop_error py_len_error)

lemma write_model_metadata_error:
  "write_model_metadata E config_uri output_uri = Inl e \<Longrightarrow> \<not> write_failure e"
proof (cases "json_load E config_uri")
  case (Inl msg)
  assume "write_model_metadata E config_uri output_uri = Inl e"
  with Inl show ?thesis by (auto simp: write_model_metadata_def write_failure_def)
next
  case data: (Inr data)
  assume w: "write_model_metadata E config_uri output_uri = Inl e"
  show ?thesis
  proof (cases "read_model_uri E data")
    case (Inl e')
    with data w have "e = e'" by (simp add: write_model_metadata_def)
    with Inl show ?thesis by (simp add: read_model_uri_error)
  next
    case uri: (Inr model_uri)
    show ?thesis
    proof (cases "read_metadata data")
      case (Inl e')
      with data uri w have "e = e'" by (simp add: write_model_metadata_def)
      with Inl show ?thesis by (simp add: read_metadata_error)
    next
      case md: (Inr metadata)
      show ?thesis
      proof (cases "metadata_validator metadata")
        case (Inl e')
        with data uri md w have "e = e'" by (simp add: write_model_metadata_def)
        with Inl show ?thesis by (simp add: metadata_validator_error)
      next
        case (Inr x)
        then have "metadata_validator metadata = Inr ()" by simp
        from commit_validated [OF this] data uri md Inr w
        show ?thesis by (auto simp: write_model_metadata_def write_failure_def split: py_error.splits exit_msg.splits)
      qed
    qed
  qed
qed

lemma files_written:
  "write_model_metadata files ''config.json'' None =
     Inr (''net.onnx'', add_metadata plain_dumps a_model (licensed ''MIT''))"
proof -
  have v: "metadata_validator (licensed ''MIT'') = Inr ()" by code_simp
  have "length (metadata_props (add_metadata plain_dumps a_model (licensed ''MIT''))) = 11"
    by (simp add: length_add_metadata licensed_def record_with_def)
  then have ne: "metadata_props (add_metadata plain_dumps a_model (licensed ''MIT'')) \<noteq> []"
    by (rule contrapos_pn) simp
  show ?thesis
    by (simp add: write_model_metadata_def files_def read_model_uri_def read_metadata_def v
        commit_def ne licensed_def [symmetric] Let_def)
qed

end
